theory Spec2Isabelle
  imports Main
begin

section \<open>smallsh: a shallow embedding of \<open>main.c\<close>\<close>

text \<open>
  The shell is one C file. Each function of it becomes a HOL function of the same name.
  Strings are \<open>string\<close> (the bytes before the terminating NUL), a \<open>char *\<close> that may be
  \<open>NULL\<close> is a \<open>string option\<close>, \<open>pid_t\<close> and \<open>int\<close> are \<open>int\<close> (no value of the
  program comes near the 32-bit bounds), and standard output is the list of the texts
  written to it, oldest first. What the operating system answers (the result of
  \<open>open\<close>, \<open>dup2\<close>, \<open>execvp\<close>, \<open>waitpid\<close>) is an argument of the model. Where
  the C code would read or write outside an object, the model returns a \<open>fault\<close>.
\<close>

datatype fault =
  NullDeref          \<comment> \<open>\<open>strlen(NULL)\<close> in \<open>parseInput\<close>\<close>
  | ArgsOverflow     \<comment> \<open>a write past \<open>args[513]\<close>\<close>
  | PidStringOverflow  \<comment> \<open>\<open>sprintf\<close> past the end of \<open>pidString\<close>\<close>
  | ResultOverflow   \<comment> \<open>a write past the \<open>malloc\<close>ed result of \<open>expandVariable\<close>\<close>
  | TableOverrun     \<comment> \<open>a read past \<open>bgPids[255]\<close>\<close>

subsection \<open>\<open>struct commandStruct\<close>\<close>

text \<open>
  \<open>args\<close> is the argument vector without its closing \<open>NULL\<close>: the end of the list is
  the sentinel. The struct comes from \<open>malloc\<close> and \<open>parseInput\<close> never stores to
  \<open>iRedirect\<close> or \<open>oRedirect\<close> unless the line has a redirection; the model reads the
  untouched fields as \<open>NULL\<close>, which is what every later \<open>!= NULL\<close> test of the
  program takes for granted.
\<close>

record commandStruct =
  command :: string
  args :: "string list"
  iRedirect :: "string option"
  oRedirect :: "string option"
  background :: bool

subsection \<open>Tokens: \<open>strtok_r(_, " \n", &saveptr)\<close>\<close>

definition is_delim :: "char \<Rightarrow> bool" where
  "is_delim c = (c = CHR '' '' \<or> c = CHR 0x0A)"

text \<open>
  One call of \<open>strtok_r\<close> on the text at \<open>saveptr\<close>: it skips delimiters, and returns
  \<open>None\<close> (\<open>NULL\<close>) when nothing is left; otherwise the token is the longest run of
  other characters, and \<open>saveptr\<close> moves past the delimiter that ended it.
\<close>

definition strtok_r :: "string \<Rightarrow> (string \<times> string) option" where
  "strtok_r s =
     (let s' = dropWhile is_delim s in
      if s' = [] then None
      else Some (takeWhile (\<lambda>c. \<not> is_delim c) s',
                 drop 1 (dropWhile (\<lambda>c. \<not> is_delim c) s')))"

lemma strtok_r_shorter: "strtok_r s = Some (t, r) \<Longrightarrow> length r < length s"
proof -
  assume a: "strtok_r s = Some (t, r)"
  let ?s' = "dropWhile is_delim s"
  from a have ne: "?s' \<noteq> []" and r: "r = drop 1 (dropWhile (\<lambda>c. \<not> is_delim c) ?s')"
    by (auto simp: strtok_r_def Let_def split: if_splits)
  have "length (dropWhile (\<lambda>c. \<not> is_delim c) ?s') \<le> length ?s'"
    by (rule length_dropWhile_le)
  moreover have "length ?s' \<le> length s"
    by (rule length_dropWhile_le)
  moreover have "0 < length ?s'" using ne by simp
  ultimately show ?thesis using r
    by (cases "dropWhile (\<lambda>c. \<not> is_delim c) ?s'") auto
qed

text \<open>
  The tokens that the successive calls of \<open>strtok_r\<close> return, in order. The parser
  below walks this list: its head is the C variable \<open>token\<close>, the empty list is
  \<open>token == NULL\<close>, and \<open>token = strtok_r(NULL, " \n", &saveptr)\<close> is the tail.
\<close>

function tokens :: "string \<Rightarrow> string list" where
  "tokens s = (case strtok_r s of None \<Rightarrow> [] | Some (t, r) \<Rightarrow> t # tokens r)"
  by pat_completeness auto
termination
proof (relation "measure length")
  show "wf (measure length)" by simp
next
  fix s x2 x y
  assume "strtok_r s = Some x2" and "(x, y) = x2"
  then have "strtok_r s = Some (x, y)" by simp
  then show "(y, s) \<in> measure length"
    by (simp add: strtok_r_shorter)
qed

declare tokens.simps [simp del]

subsection \<open>\<open>parseInput\<close>\<close>

definition is_special :: "string \<Rightarrow> bool" where
  "is_special t = (t = ''<'' \<or> t = ''>'' \<or> t = ''&'')"

text \<open>
  The \<open>while\<close> loop of lines 328 to 337: tokens are copied into \<open>args\<close> until the
  input ends or a token is \<open><\<close>, \<open>>\<close> or \<open>&\<close>. It returns the arguments and the
  tokens from the current one on.
\<close>

fun parse_args :: "string list \<Rightarrow> string list \<times> string list" where
  "parse_args [] = ([], [])"
| "parse_args (t # ts) =
     (if is_special t then ([], t # ts)
      else (case parse_args ts of (a, r) \<Rightarrow> (t # a, r)))"

text \<open>
  The \<open>do ... while (token != NULL)\<close> loop of lines 343 to 364. After \<open><\<close> or \<open>>\<close>
  the next token is taken as the target with no test for \<open>NULL\<close>, so \<open>strlen\<close> gets
  \<open>NULL\<close> when the line ends there. The first argument is the parameter \<open>fgOnly\<close>.
\<close>

fun parse_redirects :: "bool \<Rightarrow> string list \<Rightarrow> commandStruct \<Rightarrow> fault + commandStruct" where
  "parse_redirects fg [] c = Inr c"
| "parse_redirects fg (t # ts) c =
     (if t = ''<'' then
        (case ts of
           [] \<Rightarrow> Inl NullDeref
         | p # ts' \<Rightarrow> parse_redirects fg ts' (c\<lparr>iRedirect := Some p\<rparr>))
      else if t = ''>'' then
        (case ts of
           [] \<Rightarrow> Inl NullDeref
         | p # ts' \<Rightarrow> parse_redirects fg ts' (c\<lparr>oRedirect := Some p\<rparr>))
      else if t = ''&'' \<and> fg = False then
        parse_redirects fg ts (c\<lparr>background := True\<rparr>)
      else parse_redirects fg ts c)"

text \<open>
  \<open>parseInput\<close> returns \<open>Inr None\<close> for \<open>return NULL\<close> (no token on the line).
  \<open>args\<close> has 514 entries; the command, the arguments and the closing \<open>NULL\<close> fit when
  there are at most 513 strings.
\<close>

definition parseInput :: "string \<Rightarrow> bool \<Rightarrow> fault + commandStruct option" where
  "parseInput input fg =
     (case tokens input of
        [] \<Rightarrow> Inr None
      | t # ts \<Rightarrow>
          (case parse_args ts of
             (a, r) \<Rightarrow>
               if 513 < length (t # a) then Inl ArgsOverflow
               else
                 (case parse_redirects fg r
                         \<lparr>command = t, args = t # a, iRedirect = None, oRedirect = None,
                          background = False\<rparr> of
                    Inl e \<Rightarrow> Inl e
                  | Inr c \<Rightarrow> Inr (Some c))))"


text \<open>
  Whether the second loop of \<open>parseInput\<close> meets a \<open>&\<close> where it looks for one: a
  token after \<open><\<close> or \<open>>\<close> is a target and is not looked at.
\<close>

fun sees_marker :: "string list \<Rightarrow> bool" where
  "sees_marker [] = False"
| "sees_marker (t # ts) =
     (if t = ''<'' \<or> t = ''>'' then sees_marker (drop 1 ts)
      else t = ''&'' \<or> sees_marker ts)"

subsection \<open>\<open>printf("%d", _)\<close>\<close>

text \<open>
  The decimal text of a number. \<open>digits10\<close> is used on numbers from 0 on.
\<close>

definition digit_char :: "int \<Rightarrow> char" where
  "digit_char d = ''0123456789'' ! nat d"

function digits10 :: "int \<Rightarrow> string" where
  "digits10 n =
     (if n < 10 then [digit_char n]
      else digits10 (n div 10) @ [digit_char (n mod 10)])"
  by pat_completeness auto
termination
  by (relation "measure nat") auto

declare digits10.simps [simp del]

definition sprintf_d :: "int \<Rightarrow> string" where
  "sprintf_d k = (if k < 0 then CHR ''-'' # digits10 (- k) else digits10 k)"

subsection \<open>\<open>expandVariable\<close>\<close>

text \<open>
  \<open>strstr(s, "$$") == s\<close> holds exactly when \<open>s\<close> starts with the two characters.
\<close>

definition at_var :: "string \<Rightarrow> bool" where
  "at_var s = (take 2 s = ''$$'')"

text \<open>
  The counting loop of lines 397 to 405, from index \<open>i\<close> with \<open>count\<close> found so far.
  \<open>input[i] != '\0'\<close> is \<open>i < length input\<close>. It returns the final \<open>i\<close> and \<open>count\<close>.
\<close>

function count_loop :: "string \<Rightarrow> nat \<Rightarrow> nat \<Rightarrow> nat \<times> nat" where
  "count_loop input i count =
     (if i < length input then
        (if at_var (drop i input) then count_loop input (i + 2) (count + 1)
         else count_loop input (i + 1) count)
      else (i, count))"
  by pat_completeness auto
termination
  by (relation "measure (\<lambda>(input, i, count). length input - i)") auto

declare count_loop.simps [simp del]

text \<open>
  The copying loop of lines 412 to 425: \<open>res\<close> is what has been written to \<open>result\<close>
  so far (its length is the C variable \<open>i\<close>), the second argument is the text at the
  moving pointer \<open>input\<close>.
\<close>

fun copy_loop :: "string \<Rightarrow> string \<Rightarrow> string \<Rightarrow> string" where
  "copy_loop pidString [] res = res"
| "copy_loop pidString (c # cs) res =
     (if at_var (c # cs) then copy_loop pidString (drop 1 cs) (res @ pidString)
      else copy_loop pidString cs (res @ [c]))"

text \<open>
  \<open>pidString\<close> is declared with \<open>sizeof(snprintf(...)) + 1\<close> bytes. \<open>sizeof\<close> does
  not evaluate its operand: it is the size of an \<open>int\<close>, 4, so the array has 5 bytes
  and \<open>sprintf\<close> stays inside it when the decimal text of the pid and its NUL take at
  most 5 bytes. The result has \<open>i + count * (pidLength - varLength) + 1\<close> bytes,
  computed on \<open>int\<close>; the text written and its NUL have to fit.
\<close>

definition pidString_size :: nat where
  "pidString_size = 4 + 1"

definition expandVariable :: "int \<Rightarrow> string \<Rightarrow> fault + string" where
  "expandVariable pid input =
     (let pidString = sprintf_d pid in
      if pidString_size < length pidString + 1 then Inl PidStringOverflow
      else
        (case count_loop input 0 0 of
           (i, count) \<Rightarrow>
             let size = int i + int count * (int (length pidString) - 2) + 1;
                 result = copy_loop pidString input []
             in if size < int (length result) + 1 then Inl ResultOverflow
                else Inr result))"

text \<open>
  What the specification asks of the expander, in its words: every occurrence of the
  marker, scanned left to right without overlap, is replaced by the text of the pid.
\<close>

fun replace_markers :: "string \<Rightarrow> string \<Rightarrow> string" where
  "replace_markers p (c # d # cs) =
     (if c = CHR ''$'' \<and> d = CHR ''$'' then p @ replace_markers p cs
      else c # replace_markers p (d # cs))"
| "replace_markers p cs = cs"

fun occurrences :: "string \<Rightarrow> nat" where
  "occurrences (c # d # cs) =
     (if c = CHR ''$'' \<and> d = CHR ''$'' then Suc (occurrences cs)
      else occurrences (d # cs))"
| "occurrences cs = 0"

subsection \<open>Child processes as the kernel has them\<close>

text \<open>
  What \<open>waitpid\<close> stores in its status argument, as the macros of \<open>sys/wait.h\<close>
  read it: \<open>WIFEXITED\<close> with \<open>WEXITSTATUS\<close>, \<open>WIFSIGNALED\<close> with \<open>WTERMSIG\<close>, or
  neither.
\<close>

datatype wstatus = Exited int | Signaled int | OtherStatus

text \<open>
  The kernel's table of the shell's children that have not been waited for: a pid
  with \<open>None\<close> is still running, with \<open>Some st\<close> it has terminated with status \<open>st\<close>.
  \<open>waitpid(-1, &st, WNOHANG)\<close> returns a terminated child and forgets it (here: the
  first of the table), 0 when children exist and none has terminated, and -1 when
  there is no child. \<open>waitpid(pid, &st, WNOHANG)\<close> does the same for one child. The
  status is \<open>None\<close> when \<open>waitpid\<close> stores nothing.
\<close>

type_synonym kernel = "(int \<times> wstatus option) list"

definition waitpid_any_nohang :: "kernel \<Rightarrow> int \<times> wstatus option \<times> kernel" where
  "waitpid_any_nohang k =
     (case find (\<lambda>e. snd e \<noteq> None) k of
        Some (p, st) \<Rightarrow> (p, st, remove1 (p, st) k)
      | None \<Rightarrow> (if k = [] then - 1 else 0, None, k))"

definition waitpid_nohang :: "int \<Rightarrow> kernel \<Rightarrow> int \<times> wstatus option \<times> kernel" where
  "waitpid_nohang pid k =
     (case map_of k pid of
        None \<Rightarrow> (- 1, None, k)
      | Some None \<Rightarrow> (0, None, k)
      | Some (Some st) \<Rightarrow> (pid, Some st, filter (\<lambda>e. fst e \<noteq> pid) k))"

text \<open>A running child terminates with status \<open>st\<close>: a step of the system, not of the shell.\<close>

definition child_terminates :: "int \<Rightarrow> wstatus \<Rightarrow> kernel \<Rightarrow> kernel" where
  "child_terminates pid st k =
     map (\<lambda>e. if fst e = pid \<and> snd e = None then (pid, Some st) else e) k"

subsection \<open>The state of the shell\<close>

text \<open>
  The locals of \<open>main\<close> that the functions share (\<open>bgPids\<close>, \<open>statusText\<close>,
  \<open>statusCode\<close>), and what the shell has done to the outside: the texts written to
  standard output and by \<open>perror\<close>, the signals sent by \<open>kill\<close>, the arguments of
  \<open>chdir\<close>, and the kernel's table of its children.
\<close>

record shell =
  bgPids :: "int list"
  statusText :: string
  statusCode :: int
  stdout :: "string list"
  stderr :: "string list"
  kills :: "(int \<times> int) list"
  chdirs :: "string option list"
  children :: kernel

text \<open>
  How a call ends: the shell goes on, the process exits with a code, the process is
  the forked child (described below), a blocking call does not return, or the C code
  leaves its objects.
\<close>

datatype sigdisp = SIG_IGN | SIG_DFL | Handler

datatype child_end = Exits int | Replaced

record child_run =
  ch_sigtstp :: sigdisp
  ch_sigint :: sigdisp
  ch_stdin :: "int option"
  ch_stdout :: "int option"
  ch_printed :: "string list"
  ch_perror :: "string option"
  ch_execvp :: "(string \<times> string list) option"
  ch_end :: child_end

datatype outcome =
  Continues shell
  | Terminates int shell
  | ChildRuns child_run
  | Blocks
  | Faults fault

subsection \<open>\<open>checkBackground\<close>\<close>

text \<open>The loop of lines 107 to 111, from index \<open>i\<close>.\<close>

function remove_pid :: "int \<Rightarrow> nat \<Rightarrow> int list \<Rightarrow> int list" where
  "remove_pid childPid i t =
     (if i < 20 then remove_pid childPid (i + 1) (if t ! i = childPid then t[i := 0] else t)
      else t)"
  by pat_completeness auto
termination
  by (relation "measure (\<lambda>(childPid, i, t). 20 - i)") auto

declare remove_pid.simps [simp del]

definition checkBackground :: "shell \<Rightarrow> shell" where
  "checkBackground sh =
     (case waitpid_any_nohang (children sh) of
        (childPid, bgStatus, k) \<Rightarrow>
          let sh1 = sh\<lparr>children := k\<rparr> in
          if 0 < childPid then
            let sh2 =
              (case bgStatus of
                 Some (Exited code) \<Rightarrow>
                   sh1\<lparr>stdout := stdout sh1 @
                     [''background pid '' @ sprintf_d childPid @ '' is done: exit value '' @
                      sprintf_d code @ ''\<newline>'']\<rparr>
               | Some (Signaled sig) \<Rightarrow>
                   sh1\<lparr>stdout := stdout sh1 @
                     [''background pid '' @ sprintf_d childPid @
                      '' is done: terminated by signal '' @ sprintf_d sig @ ''\<newline>'']\<rparr>
               | _ \<Rightarrow> sh1)
            in sh2\<lparr>bgPids := remove_pid childPid 0 (bgPids sh2)\<rparr>
          else sh1)"

subsection \<open>\<open>exitShell\<close>\<close>

text \<open>
  The loop of lines 125 to 129, from index \<open>i\<close>: \<open>while (bgPids[i] > 0)\<close>. The array
  has as many entries as the list; a read past its end is a fault.
\<close>

function kill_loop :: "nat \<Rightarrow> shell \<Rightarrow> fault + shell" where
  "kill_loop i sh =
     (if length (bgPids sh) \<le> i then Inl TableOverrun
      else if 0 < bgPids sh ! i then
        kill_loop (i + 1)
          (sh\<lparr>kills := kills sh @ [(bgPids sh ! i, 9)],
              children := snd (snd (waitpid_nohang (bgPids sh ! i) (children sh)))\<rparr>)
      else Inr sh)"
  by pat_completeness auto
termination
  by (relation "measure (\<lambda>(i, sh). length (bgPids sh) - i)") auto

declare kill_loop.simps [simp del]

definition exitShell :: "shell \<Rightarrow> outcome" where
  "exitShell sh = (case kill_loop 0 sh of Inl f \<Rightarrow> Faults f | Inr sh' \<Rightarrow> Terminates 0 sh')"

subsection \<open>\<open>changeDirectory\<close>\<close>

text \<open>\<open>home\<close> is the result of \<open>getenv("HOME")\<close>.\<close>

definition changeDirectory :: "string option \<Rightarrow> string option \<Rightarrow> shell \<Rightarrow> shell" where
  "changeDirectory home path sh =
     (case path of
        None \<Rightarrow> sh\<lparr>chdirs := chdirs sh @ [home]\<rparr>
      | Some p \<Rightarrow> sh\<lparr>chdirs := chdirs sh @ [Some p]\<rparr>)"

subsection \<open>\<open>executeCommand\<close>: the child\<close>

text \<open>
  The answers of the system to the child. \<open>open\<close> returns a descriptor, or -1. By
  POSIX \<open>dup2(oldfd, newfd)\<close> fails with \<open>EBADF\<close> when \<open>oldfd\<close> is not an open
  descriptor, which no negative number is; for an open one it returns \<open>newfd\<close>
  unless the system fails it for a reason of its own (\<open>dup2_fails\<close>).
\<close>

record os =
  open_rd :: "string \<Rightarrow> int"
  open_wr :: "string \<Rightarrow> int"
  dup2_fails :: "int \<Rightarrow> int \<Rightarrow> bool"
  execvp_fails :: "string \<Rightarrow> string list \<Rightarrow> bool"

definition dup2 :: "os \<Rightarrow> int \<Rightarrow> int \<Rightarrow> int" where
  "dup2 sys oldfd newfd = (if oldfd < 0 \<or> dup2_fails sys oldfd newfd then - 1 else newfd)"

text \<open>\<open>printf("%s", p)\<close>; the C library prints \<open>(null)\<close> for a null pointer.\<close>

definition fmt_s :: "string option \<Rightarrow> string" where
  "fmt_s p = (case p of None \<Rightarrow> ''(null)'' | Some s \<Rightarrow> s)"

text \<open>
  Lines 189 to 211, and lines 214 to 236. \<open>Inl\<close> is the child after \<open>exit(1)\<close>,
  \<open>Inr\<close> the child going on. What the child prints goes to the shell's standard
  output, which is still descriptor 1 at both \<open>printf\<close>s.
\<close>

definition redirect_input :: "os \<Rightarrow> commandStruct \<Rightarrow> child_run \<Rightarrow> child_run + child_run" where
  "redirect_input sys c r =
     (if background c = True \<or> iRedirect c \<noteq> None then
        let inputFD = (case iRedirect c of
                         Some p \<Rightarrow> open_rd sys p
                       | None \<Rightarrow> open_rd sys ''/dev/null'');
            r1 = (if inputFD = - 1 then
                    r\<lparr>ch_printed := ch_printed r @
                        [''cannot open '' @ fmt_s (iRedirect c) @ '' for input\<newline>'']\<rparr>
                  else r);
            result = dup2 sys inputFD 0
        in if result = - 1 then Inl (r1\<lparr>ch_end := Exits 1\<rparr>)
           else Inr (r1\<lparr>ch_stdin := Some inputFD\<rparr>)
      else Inr r)"

definition redirect_output :: "os \<Rightarrow> commandStruct \<Rightarrow> child_run \<Rightarrow> child_run + child_run" where
  "redirect_output sys c r =
     (if background c = True \<or> oRedirect c \<noteq> None then
        let outputFD = (case oRedirect c of
                          Some p \<Rightarrow> open_wr sys p
                        | None \<Rightarrow> open_wr sys ''/dev/null'');
            r1 = (if outputFD = - 1 then
                    r\<lparr>ch_printed := ch_printed r @
                        [''cannot open '' @ fmt_s (oRedirect c) @ '' for output\<newline>'']\<rparr>
                  else r);
            result = dup2 sys outputFD 1
        in if result = - 1 then Inl (r1\<lparr>ch_end := Exits 1\<rparr>)
           else Inr (r1\<lparr>ch_stdout := Some outputFD\<rparr>)
      else Inr r)"

text \<open>Lines 239 to 243: \<open>execvp\<close>, which returns only when it fails.\<close>

definition exec_command :: "os \<Rightarrow> commandStruct \<Rightarrow> child_run \<Rightarrow> child_run" where
  "exec_command sys c r =
     (let r1 = r\<lparr>ch_execvp := Some (command c, args c)\<rparr> in
      if execvp_fails sys (command c) (args c)
      then r1\<lparr>ch_perror := Some (command c), ch_end := Exits 1\<rparr>
      else r1\<lparr>ch_end := Replaced\<rparr>)"

text \<open>
  \<open>case 0\<close> of the \<open>switch\<close>. The child inherits the shell's dispositions: \<open>main\<close>
  has set \<open>SIGINT\<close> to \<open>SIG_IGN\<close>. \<open>child_start\<close> is the child after the two calls of
  \<open>sigaction\<close> (lines 177 to 186); \<open>ch_end\<close> is set when it ends.
\<close>

definition child_start :: "commandStruct \<Rightarrow> child_run" where
  "child_start c =
     \<lparr>ch_sigtstp = SIG_IGN,
      ch_sigint = (if background c = False then SIG_DFL else SIG_IGN),
      ch_stdin = None, ch_stdout = None, ch_printed = [], ch_perror = None,
      ch_execvp = None, ch_end = Replaced\<rparr>"

definition executeCommand_child :: "os \<Rightarrow> commandStruct \<Rightarrow> child_run" where
  "executeCommand_child sys c =
     (case redirect_input sys c (child_start c) of
        Inl dead \<Rightarrow> dead
      | Inr r1 \<Rightarrow>
          (case redirect_output sys c r1 of
             Inl dead \<Rightarrow> dead
           | Inr r2 \<Rightarrow> exec_command sys c r2))"

subsection \<open>\<open>executeCommand\<close>: the parent\<close>

text \<open>The loop of lines 259 to 265, from index \<open>i\<close>; \<open>break\<close> ends it.\<close>

function add_pid :: "int \<Rightarrow> nat \<Rightarrow> int list \<Rightarrow> int list" where
  "add_pid childPid i t =
     (if i < 20 then (if t ! i = 0 then t[i := childPid] else add_pid childPid (i + 1) t)
      else t)"
  by pat_completeness auto
termination
  by (relation "measure (\<lambda>(childPid, i, t). 20 - i)") auto

declare add_pid.simps [simp del]

text \<open>
  \<open>childPid\<close> is what \<open>fork\<close> returned. \<open>childStatus\<close> is the state of the child
  when the parent's \<open>waitpid\<close> looks at it: \<open>Some st\<close> when the child has terminated
  with status \<open>st\<close>; \<open>None\<close> when it is still running, where the blocking wait of
  the foreground branch does not return. The parent never assigns its own
  \<open>inputFD\<close> and \<open>outputFD\<close>; its two \<open>fcntl\<close> calls on them are left out.
\<close>

definition executeCommand ::
  "os \<Rightarrow> int \<Rightarrow> wstatus option \<Rightarrow> commandStruct \<Rightarrow> shell \<Rightarrow> outcome" where
  "executeCommand sys childPid childStatus c sh =
     (if childPid = - 1 then Terminates 1 (sh\<lparr>stderr := stderr sh @ [''fork()'']\<rparr>)
      else if childPid = 0 then ChildRuns (executeCommand_child sys c)
      else if background c = True then
        let sh1 = sh\<lparr>stdout := stdout sh @
                      [''background pid is '' @ sprintf_d childPid @ ''\<newline>'']\<rparr>;
            sh2 = sh1\<lparr>bgPids := add_pid childPid 0 (bgPids sh1)\<rparr>
        in (case waitpid_nohang childPid (children sh2 @ [(childPid, childStatus)]) of
              (ret, st, k) \<Rightarrow> Continues (sh2\<lparr>children := k\<rparr>))
      else
        (case childStatus of
           None \<Rightarrow> Blocks
         | Some (Exited code) \<Rightarrow>
             Continues (sh\<lparr>statusText := ''exit value'', statusCode := code\<rparr>)
         | Some (Signaled sig) \<Rightarrow>
             (let sh1 = sh\<lparr>statusText := ''terminated by signal'', statusCode := 2\<rparr>
              in Continues (sh1\<lparr>stdout := stdout sh1 @
                              [statusText sh1 @ '' '' @ sprintf_d 2 @ ''\<newline>'']\<rparr>))
         | Some OtherStatus \<Rightarrow> Continues sh))"

subsection \<open>\<open>main\<close>\<close>

text \<open>The state at the first prompt: lines 458 to 495.\<close>

definition initial :: shell where
  "initial =
     \<lparr>bgPids = replicate 256 0, statusText = ''exit value'', statusCode = 0,
      stdout = [''$ smallsh\<newline>''], stderr = [], kills = [], chdirs = [],
      children = []\<rparr>"

text \<open>
  Lines 514 to 529: what the loop does with the parsed line. \<open>args[1]\<close> is the entry
  after the command, \<open>NULL\<close> when the command is alone.
\<close>

definition dispatch ::
  "os \<Rightarrow> int \<Rightarrow> wstatus option \<Rightarrow> string option \<Rightarrow> commandStruct option \<Rightarrow> shell \<Rightarrow> outcome"
  where
  "dispatch sys childPid childStatus home commandLine sh =
     (case commandLine of
        None \<Rightarrow> Continues sh
      | Some c \<Rightarrow>
          if command c \<noteq> '' '' \<and> take 1 (command c) \<noteq> ''#'' then
            (if command c = ''exit'' then exitShell sh
             else if command c = ''cd'' then
               Continues (changeDirectory home
                            (if 1 < length (args c) then Some (args c ! 1) else None) sh)
             else if command c = ''status'' then
               Continues (sh\<lparr>stdout := stdout sh @
                             [statusText sh @ '' '' @ sprintf_d (statusCode sh) @ ''\<newline>'']\<rparr>)
             else executeCommand sys childPid childStatus c sh)
          else Continues sh)"

section \<open>The parser and the background marker\<close>

lemma parse_redirects_background_aux:
  "\<forall>c c'. parse_redirects fg ts c = Inr c' \<longrightarrow>
     background c' = (background c \<or> (fg = False \<and> sees_marker ts))"
proof (induction ts rule: length_induct)
  case (1 ts)
  have IH: "background c' = (background c \<or> (fg = False \<and> sees_marker ys))"
    if "length ys < length ts" and "parse_redirects fg ys c = Inr c'" for ys c c'
    using 1 that by blast
  show ?case
  proof (intro allI impI)
    fix c c'
    assume eq: "parse_redirects fg ts c = Inr c'"
    show "background c' = (background c \<or> (fg = False \<and> sees_marker ts))"
    proof (cases ts)
      case Nil
      with eq show ?thesis by simp
    next
      case (Cons t ts1)
      consider (redir) "t = ''<'' \<or> t = ''>''" | (amp) "t = ''&''"
        | (other) "t \<noteq> ''<''" "t \<noteq> ''>''" "t \<noteq> ''&''"
        by blast
      then show ?thesis
      proof cases
        case redir
        show ?thesis
        proof (cases ts1)
          case Nil
          with eq Cons redir show ?thesis by auto
        next
          case (Cons p ts2)
          note ts1 = Cons
          from eq \<open>ts = t # ts1\<close> ts1 redir
          have "parse_redirects fg ts2 (c\<lparr>iRedirect := Some p\<rparr>) = Inr c'
              \<or> parse_redirects fg ts2 (c\<lparr>oRedirect := Some p\<rparr>) = Inr c'"
            by auto
          moreover have "length ts2 < length ts"
            using \<open>ts = t # ts1\<close> ts1 by simp
          ultimately have "background c' = (background c \<or> (fg = False \<and> sees_marker ts2))"
            using IH [of ts2 "c\<lparr>iRedirect := Some p\<rparr>" c']
                  IH [of ts2 "c\<lparr>oRedirect := Some p\<rparr>" c'] by auto
          then show ?thesis
            using \<open>ts = t # ts1\<close> ts1 redir by auto
        qed
      next
        case amp
        have len: "length ts1 < length ts" using Cons by simp
        show ?thesis
        proof (cases fg)
          case True
          with eq Cons amp have "parse_redirects fg ts1 c = Inr c'" by simp
          from IH [OF len this] show ?thesis using Cons amp True by simp
        next
          case False
          with eq Cons amp have "parse_redirects fg ts1 (c\<lparr>background := True\<rparr>) = Inr c'"
            by simp
          from IH [OF len this] show ?thesis using Cons amp False by simp
        qed
      next
        case other
        have len: "length ts1 < length ts" using Cons by simp
        from eq Cons other have "parse_redirects fg ts1 c = Inr c'" by simp
        from IH [OF len this] show ?thesis using Cons other by simp
      qed
    qed
  qed
qed

lemma parse_redirects_background:
  "parse_redirects fg ts c = Inr c' \<Longrightarrow>
     background c' = (background c \<or> (fg = False \<and> sees_marker ts))"
  using parse_redirects_background_aux by blast

lemma sees_marker_in_set: "sees_marker ts \<Longrightarrow> ''&'' \<in> set ts"
proof (induction ts rule: sees_marker.induct)
  case 1
  then show ?case by simp
next
  case (2 t ts)
  then show ?case
    by (cases "t = ''<'' \<or> t = ''>''") (auto dest: in_set_dropD)
qed

lemma parse_args_rest: "parse_args ts = (a, r) \<Longrightarrow> set r \<subseteq> set ts"
proof (induction ts arbitrary: a r)
  case Nil
  then show ?case by simp
next
  case (Cons t ts)
  show ?case
  proof (cases "is_special t")
    case True
    with Cons.prems show ?thesis by simp
  next
    case False
    obtain a1 r1 where p: "parse_args ts = (a1, r1)" by (cases "parse_args ts")
    with Cons.prems False have "r = r1" by simp
    with Cons.IH [OF p] show ?thesis by auto
  qed
qed

lemma parse_args_stops:
  "\<forall>x\<in>set a. \<not> is_special x \<Longrightarrow> is_special s \<Longrightarrow> parse_args (a @ s # rest) = (a, s # rest)"
  by (induction a) simp_all

lemma parseInput_SomeD:
  assumes "parseInput input fg = Inr (Some c)"
  shows "\<exists>t ts a r. tokens input = t # ts \<and> parse_args ts = (a, r) \<and>
           parse_redirects fg r \<lparr>command = t, args = t # a, iRedirect = None,
             oRedirect = None, background = False\<rparr> = Inr c"
proof (cases "tokens input")
  case Nil
  with assms show ?thesis by (simp add: parseInput_def)
next
  case (Cons t ts)
  obtain a r where pa: "parse_args ts = (a, r)" by (cases "parse_args ts")
  from assms Cons pa have
    "parse_redirects fg r \<lparr>command = t, args = t # a, iRedirect = None,
       oRedirect = None, background = False\<rparr> = Inr c"
    by (simp add: parseInput_def split: if_splits sum.splits)
  with Cons pa show ?thesis by blast
qed

text \<open>
  C5. Every line parsed while the foreground-only flag is true gives a command whose
  background flag is false, whatever the line holds, a final \<open>&\<close> included: no command
  with \<open>background = true\<close> is produced while the flag is set.
\<close>

theorem parseInput_fgOnly_foreground:
  assumes "parseInput input True = Inr (Some c)"
  shows "background c = False"
proof -
  from parseInput_SomeD [OF assms] obtain t a r where
    "parse_redirects True r \<lparr>command = t, args = t # a, iRedirect = None,
       oRedirect = None, background = False\<rparr> = Inr c"
    by blast
  from parse_redirects_background [OF this] show ?thesis by simp
qed

theorem parseInput_fgOnly_foreground_witness:
  "parseInput ''sleep 5 &\<newline>'' True =
     Inr (Some \<lparr>command = ''sleep'', args = [''sleep'', ''5''], iRedirect = None,
                oRedirect = None, background = False\<rparr>)
   \<and> background \<lparr>command = ''sleep'', args = [''sleep'', ''5''], iRedirect = None,
                oRedirect = None, background = False\<rparr> = False"
proof -
  have h: "parseInput ''sleep 5 &\<newline>'' True =
     Inr (Some \<lparr>command = ''sleep'', args = [''sleep'', ''5''], iRedirect = None,
                oRedirect = None, background = False\<rparr>)"
    by code_simp
  show ?thesis using h parseInput_fgOnly_foreground [OF h] by simp
qed

text \<open>
  C4, as the specification has it: the background flag is true only if the final token
  of the line is \<open>&\<close>. The line \<open>sleep 5 & foo\<close> is parsed, outside foreground-only
  mode, into a background command, and its final token is \<open>foo\<close>.
\<close>

theorem parseInput_background_final_counterexample:
  "parseInput ''sleep 5 & foo\<newline>'' False =
     Inr (Some \<lparr>command = ''sleep'', args = [''sleep'', ''5''], iRedirect = None,
                oRedirect = None, background = True\<rparr>)
   \<and> last (tokens ''sleep 5 & foo\<newline>'') \<noteq> ''&''"
  by code_simp

text \<open>
  C4, as the code has it: the background flag is true only if foreground-only mode is
  not active and some token after the command name is \<open>&\<close>. The marker need not be
  the final token: when the first of the tokens \<open><\<close>, \<open>>\<close>, \<open>&\<close> after the command
  name is \<open>&\<close> and foreground-only mode is not active, the command is a background
  command, whatever follows the marker.
\<close>

theorem parseInput_background_marker:
  assumes "parseInput input fg = Inr (Some c)"
  shows "(background c \<longrightarrow> fg = False \<and> ''&'' \<in> set (tl (tokens input))) \<and>
         ((\<exists>t a rest. tokens input = t # a @ ''&'' # rest \<and> (\<forall>x\<in>set a. \<not> is_special x))
            \<and> fg = False \<longrightarrow> background c)"
proof -
  from parseInput_SomeD [OF assms] obtain t ts a r where
    tk: "tokens input = t # ts" and pa: "parse_args ts = (a, r)" and
    pr: "parse_redirects fg r \<lparr>command = t, args = t # a, iRedirect = None,
           oRedirect = None, background = False\<rparr> = Inr c"
    by blast
  have bg: "background c = (fg = False \<and> sees_marker r)"
    using parse_redirects_background [OF pr] by simp
  have only_if: "fg = False \<and> ''&'' \<in> set (tl (tokens input))" if "background c"
  proof -
    from that bg have "fg = False" and "''&'' \<in> set r"
      by (simp_all add: sees_marker_in_set)
    moreover have "set r \<subseteq> set ts" by (rule parse_args_rest [OF pa])
    ultimately show ?thesis using tk by auto
  qed
  have midline: "background c"
    if tk': "tokens input = t' # a' @ ''&'' # rest" and na: "\<forall>x\<in>set a'. \<not> is_special x"
      and fg: "fg = False" for t' a' rest
  proof -
    have "parse_args (a' @ ''&'' # rest) = (a', ''&'' # rest)"
      by (rule parse_args_stops [OF na]) (simp add: is_special_def)
    with tk tk' pa have "r = ''&'' # rest" by simp
    with bg fg show ?thesis by simp
  qed
  show ?thesis using only_if midline by blast
qed

theorem parseInput_background_marker_witness:
  "parseInput ''sleep 5 & foo\<newline>'' False =
     Inr (Some \<lparr>command = ''sleep'', args = [''sleep'', ''5''], iRedirect = None,
                oRedirect = None, background = True\<rparr>)
   \<and> tokens ''sleep 5 & foo\<newline>'' = ''sleep'' # [''5''] @ ''&'' # [''foo'']
   \<and> ''&'' \<in> set (tl (tokens ''sleep 5 & foo\<newline>''))"
proof -
  have h: "parseInput ''sleep 5 & foo\<newline>'' False =
     Inr (Some \<lparr>command = ''sleep'', args = [''sleep'', ''5''], iRedirect = None,
                oRedirect = None, background = True\<rparr>)"
    by code_simp
  have t: "tokens ''sleep 5 & foo\<newline>'' = ''sleep'' # [''5''] @ ''&'' # [''foo'']"
    by code_simp
  show ?thesis using h t parseInput_background_marker [OF h] by simp
qed

section \<open>The status of the last foreground command\<close>

lemma sprintf_d_2: "sprintf_d 2 = ''2''"
  by code_simp

lemma sprintf_d_0: "sprintf_d 0 = ''0''"
  by code_simp

text \<open>
  C6. When the blocking wait for a foreground child returns and the child has exited,
  the status becomes \<open>exit value\<close> with the child's exit code and nothing is written
  to standard output; when the child was killed by a signal, the status becomes
  \<open>terminated by signal\<close> with code 2, whatever the signal, and that line is written
  at once.
\<close>

theorem executeCommand_foreground_status:
  assumes "background c = False" and "0 < childPid"
  shows "executeCommand sys childPid (Some (Exited code)) c sh =
           Continues (sh\<lparr>statusText := ''exit value'', statusCode := code\<rparr>)
       \<and> executeCommand sys childPid (Some (Signaled sig)) c sh =
           Continues (sh\<lparr>statusText := ''terminated by signal'', statusCode := 2,
                         stdout := stdout sh @ [''terminated by signal 2\<newline>'']\<rparr>)"
  using assms by (simp add: executeCommand_def sprintf_d_2)


theorem executeCommand_foreground_status_witness:
  "executeCommand
      \<lparr>open_rd = (\<lambda>p. 3), open_wr = (\<lambda>p. 4), dup2_fails = (\<lambda>a b. False),
       execvp_fails = (\<lambda>c a. False)\<rparr>
      4242 (Some (Exited 3))
      \<lparr>command = ''ls'', args = [''ls''], iRedirect = None, oRedirect = None,
       background = False\<rparr> initial =
     Continues (initial\<lparr>statusText := ''exit value'', statusCode := 3\<rparr>)
   \<and> executeCommand
      \<lparr>open_rd = (\<lambda>p. 3), open_wr = (\<lambda>p. 4), dup2_fails = (\<lambda>a b. False),
       execvp_fails = (\<lambda>c a. False)\<rparr>
      4242 (Some (Signaled 15))
      \<lparr>command = ''ls'', args = [''ls''], iRedirect = None, oRedirect = None,
       background = False\<rparr> initial =
     Continues (initial\<lparr>statusText := ''terminated by signal'', statusCode := 2,
                  stdout := [''$ smallsh\<newline>'', ''terminated by signal 2\<newline>'']\<rparr>)"
  using executeCommand_foreground_status
    [of "\<lparr>command = ''ls'', args = [''ls''], iRedirect = None, oRedirect = None,
         background = False\<rparr>" 4242
        "\<lparr>open_rd = (\<lambda>p. 3), open_wr = (\<lambda>p. 4), dup2_fails = (\<lambda>a b. False),
         execvp_fails = (\<lambda>c a. False)\<rparr>" 3 initial 15]
  by (simp add: initial_def)

text \<open>
  C10. The status starts as \<open>exit value\<close> with code 0, so that \<open>status\<close> given as
  the first command writes \<open>exit value 0\<close>.
\<close>

theorem status_before_any_foreground_command:
  "statusText initial = ''exit value'' \<and> statusCode initial = 0 \<and>
   (command c = ''status'' \<longrightarrow>
      dispatch sys childPid childStatus home (Some c) initial =
        Continues (initial\<lparr>stdout := stdout initial @ [''exit value 0\<newline>'']\<rparr>))"
  by (simp add: dispatch_def initial_def sprintf_d_0)

theorem status_before_any_foreground_command_witness:
  "parseInput ''status\<newline>'' False =
     Inr (Some \<lparr>command = ''status'', args = [''status''], iRedirect = None,
                oRedirect = None, background = False\<rparr>)
   \<and> dispatch \<lparr>open_rd = (\<lambda>p. 3), open_wr = (\<lambda>p. 4), dup2_fails = (\<lambda>a b. False),
       execvp_fails = (\<lambda>c a. False)\<rparr> 0 None None
       (Some \<lparr>command = ''status'', args = [''status''], iRedirect = None,
                oRedirect = None, background = False\<rparr>) initial =
     Continues (initial\<lparr>stdout := [''$ smallsh\<newline>'', ''exit value 0\<newline>'']\<rparr>)"
proof -
  have p: "parseInput ''status\<newline>'' False =
     Inr (Some \<lparr>command = ''status'', args = [''status''], iRedirect = None,
                oRedirect = None, background = False\<rparr>)"
    by code_simp
  show ?thesis
    using p status_before_any_foreground_command
      [of "\<lparr>command = ''status'', args = [''status''], iRedirect = None,
                oRedirect = None, background = False\<rparr>"
          "\<lparr>open_rd = (\<lambda>p. 3), open_wr = (\<lambda>p. 4), dup2_fails = (\<lambda>a b. False),
       execvp_fails = (\<lambda>c a. False)\<rparr>" 0 None None]
    by (simp add: initial_def)
qed

section \<open>Redirection in the child\<close>

lemma dup2_closed: "dup2 sys (- 1) newfd = - 1"
  by (simp add: dup2_def)

lemma redirect_input_fatal:
  assumes "iRedirect c = Some p" and "dup2 sys (open_rd sys p) 0 = - 1"
  shows "redirect_input sys c r =
           Inl ((if open_rd sys p = - 1
                 then r\<lparr>ch_printed := ch_printed r @ [''cannot open '' @ p @ '' for input\<newline>'']\<rparr>
                 else r)\<lparr>ch_end := Exits 1\<rparr>)"
  using assms by (simp add: redirect_input_def fmt_s_def Let_def)

lemma redirect_output_fatal:
  assumes "oRedirect c = Some p" and "dup2 sys (open_wr sys p) 1 = - 1"
  shows "redirect_output sys c r =
           Inl ((if open_wr sys p = - 1
                 then r\<lparr>ch_printed := ch_printed r @ [''cannot open '' @ p @ '' for output\<newline>'']\<rparr>
                 else r)\<lparr>ch_end := Exits 1\<rparr>)"
  using assms by (simp add: redirect_output_def fmt_s_def Let_def)

lemma redirect_input_keeps:
  "redirect_input sys c r = Inr r1 \<Longrightarrow> ch_execvp r1 = ch_execvp r"
  by (simp add: redirect_input_def Let_def split: if_splits) auto

lemma redirect_input_exit:
  "redirect_input sys c r = Inl r1 \<Longrightarrow> ch_execvp r1 = ch_execvp r \<and> ch_end r1 = Exits 1"
  by (simp add: redirect_input_def Let_def split: if_splits) auto


lemma child_start_execvp: "ch_execvp (child_start c) = None"
  by (simp add: child_start_def)

lemma child_input_dup2_fatal:
  assumes "iRedirect c = Some p" and "dup2 sys (open_rd sys p) 0 = - 1"
  shows "ch_end (executeCommand_child sys c) = Exits 1 \<and>
         ch_execvp (executeCommand_child sys c) = None"
  unfolding executeCommand_child_def redirect_input_fatal [OF assms]
  by (simp add: child_start_execvp)

lemma child_output_dup2_fatal:
  assumes "oRedirect c = Some p" and "dup2 sys (open_wr sys p) 1 = - 1"
  shows "ch_end (executeCommand_child sys c) = Exits 1 \<and>
         ch_execvp (executeCommand_child sys c) = None"
proof (cases "redirect_input sys c (child_start c)")
  case (Inl dead)
  from redirect_input_exit [OF Inl] have "ch_execvp dead = None \<and> ch_end dead = Exits 1"
    by (simp add: child_start_execvp)
  with Inl show ?thesis by (simp add: executeCommand_child_def)
next
  case (Inr r1)
  from redirect_input_keeps [OF Inr] have "ch_execvp r1 = None"
    by (simp add: child_start_execvp)
  with Inr show ?thesis
    unfolding executeCommand_child_def by (simp add: redirect_output_fatal [OF assms])
qed

text \<open>
  C1, as the specification has it: when the target of a redirection cannot be opened
  the child prints the diagnostic and still goes on to attempt the command. In the
  scenario \<open>ls > /no/such/dir/out.txt\<close>, with \<open>open\<close> failing, the child prints the
  diagnostic, never calls \<open>execvp\<close>, and exits with code 1.
\<close>

theorem child_open_failure_counterexample:
  "executeCommand_child
     \<lparr>open_rd = (\<lambda>p. 3), open_wr = (\<lambda>p. - 1), dup2_fails = (\<lambda>a b. False),
      execvp_fails = (\<lambda>c a. False)\<rparr>
     \<lparr>command = ''ls'', args = [''ls''], iRedirect = None,
      oRedirect = Some ''/no/such/dir/out.txt'', background = False\<rparr> =
   \<lparr>ch_sigtstp = SIG_IGN, ch_sigint = SIG_DFL, ch_stdin = None, ch_stdout = None,
    ch_printed = [''cannot open /no/such/dir/out.txt for output\<newline>''],
    ch_perror = None, ch_execvp = None, ch_end = Exits 1\<rparr>"
  by (simp add: executeCommand_child_def child_start_def redirect_input_def
        redirect_output_def dup2_def fmt_s_def)

text \<open>
  C1, as the code has it: when the target of \<open><\<close> or \<open>>\<close> cannot be opened, the
  child prints the diagnostic naming the target and hands the -1 that \<open>open\<close>
  returned to \<open>dup2\<close>, which fails on it: the child exits with code 1 and does not
  attempt the command. Every failure of \<open>dup2\<close> on the descriptor of a target ends
  the child in this way.
\<close>

theorem child_open_failure_fatal:
  "(iRedirect c = Some p \<and> open_rd sys p = - 1 \<longrightarrow>
      executeCommand_child sys c =
        (child_start c)\<lparr>ch_printed := [''cannot open '' @ p @ '' for input\<newline>''],
                        ch_end := Exits 1\<rparr>)
   \<and> (oRedirect c = Some p \<and> open_wr sys p = - 1 \<longrightarrow>
        ch_end (executeCommand_child sys c) = Exits 1 \<and>
        ch_execvp (executeCommand_child sys c) = None \<and>
        (\<forall>r1. redirect_input sys c (child_start c) = Inr r1 \<longrightarrow>
           executeCommand_child sys c =
             r1\<lparr>ch_printed := ch_printed r1 @ [''cannot open '' @ p @ '' for output\<newline>''],
                ch_end := Exits 1\<rparr>))
   \<and> (iRedirect c = Some p \<and> dup2 sys (open_rd sys p) 0 = - 1 \<longrightarrow>
        ch_end (executeCommand_child sys c) = Exits 1 \<and>
        ch_execvp (executeCommand_child sys c) = None)
   \<and> (oRedirect c = Some p \<and> dup2 sys (open_wr sys p) 1 = - 1 \<longrightarrow>
        ch_end (executeCommand_child sys c) = Exits 1 \<and>
        ch_execvp (executeCommand_child sys c) = None)"
proof -
  have a: "executeCommand_child sys c =
        (child_start c)\<lparr>ch_printed := [''cannot open '' @ p @ '' for input\<newline>''],
                        ch_end := Exits 1\<rparr>"
    if "iRedirect c = Some p" and o: "open_rd sys p = - 1"
  proof -
    from o have d: "dup2 sys (open_rd sys p) 0 = - 1" by (simp add: dup2_closed)
    show ?thesis
      unfolding executeCommand_child_def redirect_input_fatal [OF that(1) d]
      using o by (simp add: child_start_def)
  qed
  have b: "ch_end (executeCommand_child sys c) = Exits 1 \<and>
        ch_execvp (executeCommand_child sys c) = None \<and>
        (\<forall>r1. redirect_input sys c (child_start c) = Inr r1 \<longrightarrow>
           executeCommand_child sys c =
             r1\<lparr>ch_printed := ch_printed r1 @ [''cannot open '' @ p @ '' for output\<newline>''],
                ch_end := Exits 1\<rparr>)"
    if t: "oRedirect c = Some p" and o: "open_wr sys p = - 1"
  proof -
    from o have d: "dup2 sys (open_wr sys p) 1 = - 1" by (simp add: dup2_closed)
    have "executeCommand_child sys c =
             r1\<lparr>ch_printed := ch_printed r1 @ [''cannot open '' @ p @ '' for output\<newline>''],
                ch_end := Exits 1\<rparr>"
      if "redirect_input sys c (child_start c) = Inr r1" for r1
      unfolding executeCommand_child_def that redirect_output_fatal [OF t d]
      using o by simp
    with child_output_dup2_fatal [OF t d] show ?thesis by blast
  qed
  from a b child_input_dup2_fatal child_output_dup2_fatal show ?thesis
    by blast
qed

theorem child_open_failure_fatal_witness:
  "oRedirect \<lparr>command = ''ls'', args = [''ls''], iRedirect = None,
      oRedirect = Some ''/no/such/dir/out.txt'', background = False\<rparr> =
     Some ''/no/such/dir/out.txt''
   \<and> open_wr \<lparr>open_rd = (\<lambda>p. 3), open_wr = (\<lambda>p. - 1), dup2_fails = (\<lambda>a b. False),
      execvp_fails = (\<lambda>c a. False)\<rparr> ''/no/such/dir/out.txt'' = - 1
   \<and> ch_end (executeCommand_child
       \<lparr>open_rd = (\<lambda>p. 3), open_wr = (\<lambda>p. - 1), dup2_fails = (\<lambda>a b. False),
        execvp_fails = (\<lambda>c a. False)\<rparr>
       \<lparr>command = ''ls'', args = [''ls''], iRedirect = None,
        oRedirect = Some ''/no/such/dir/out.txt'', background = False\<rparr>) = Exits 1
   \<and> ch_execvp (executeCommand_child
       \<lparr>open_rd = (\<lambda>p. 3), open_wr = (\<lambda>p. - 1), dup2_fails = (\<lambda>a b. False),
        execvp_fails = (\<lambda>c a. False)\<rparr>
       \<lparr>command = ''ls'', args = [''ls''], iRedirect = None,
        oRedirect = Some ''/no/such/dir/out.txt'', background = False\<rparr>) = None"
  using child_open_failure_fatal
    [of "\<lparr>command = ''ls'', args = [''ls''], iRedirect = None,
        oRedirect = Some ''/no/such/dir/out.txt'', background = False\<rparr>"
        "''/no/such/dir/out.txt''"
        "\<lparr>open_rd = (\<lambda>p. 3), open_wr = (\<lambda>p. - 1), dup2_fails = (\<lambda>a b. False),
        execvp_fails = (\<lambda>c a. False)\<rparr>"]
  by simp

section \<open>Registering a background child\<close>

lemma add_pid_full:
  "\<forall>j. i \<le> j \<and> j < 20 \<longrightarrow> t ! j \<noteq> 0 \<Longrightarrow> add_pid p i t = t"
proof (induction p i t rule: add_pid.induct)
  case (1 p i t)
  show ?case
  proof (cases "i < 20")
    case True
    with 1 have "t ! i \<noteq> 0" by simp
    moreover from 1 True this have "add_pid p (i + 1) t = t" by simp
    ultimately show ?thesis using True by (subst add_pid.simps) simp
  next
    case False
    then show ?thesis by (subst add_pid.simps) simp
  qed
qed

lemma add_pid_first:
  "i \<le> k \<Longrightarrow> k < 20 \<Longrightarrow> t ! k = 0 \<Longrightarrow> \<forall>j. i \<le> j \<and> j < k \<longrightarrow> t ! j \<noteq> 0 \<Longrightarrow>
     add_pid p i t = t[k := p]"
proof (induction p i t rule: add_pid.induct)
  case (1 p i t)
  show ?case
  proof (cases "i = k")
    case True
    with 1 show ?thesis by (subst add_pid.simps) simp
  next
    case False
    with 1 have lt: "i < k" and nz: "t ! i \<noteq> 0" by simp_all
    with 1 have "add_pid p (i + 1) t = t[k := p]" by simp
    with lt nz 1(3) show ?thesis by (subst add_pid.simps) simp
  qed
qed

lemma first_empty_slot_upto:
  "(\<exists>k<n. t ! k = (0::int) \<and> (\<forall>j<k. t ! j \<noteq> 0)) \<or> (\<forall>j<n. t ! j \<noteq> 0)"
proof (induction n)
  case 0
  then show ?case by simp
next
  case (Suc n)
  then show ?case
  proof
    assume "\<exists>k<n. t ! k = 0 \<and> (\<forall>j<k. t ! j \<noteq> 0)"
    then obtain k where "k < n" "t ! k = 0" "\<forall>j<k. t ! j \<noteq> 0" by blast
    then have "k < Suc n \<and> t ! k = 0 \<and> (\<forall>j<k. t ! j \<noteq> 0)" by simp
    then show ?thesis by blast
  next
    assume none: "\<forall>j<n. t ! j \<noteq> 0"
    show ?thesis
    proof (cases "t ! n = 0")
      case True
      with none have "n < Suc n \<and> t ! n = 0 \<and> (\<forall>j<n. t ! j \<noteq> 0)" by simp
      then show ?thesis by blast
    next
      case False
      with none have "\<forall>j<Suc n. t ! j \<noteq> 0" by (simp add: less_Suc_eq)
      then show ?thesis by blast
    qed
  qed
qed

text \<open>
  C9. Launching a background command writes the notice with the child's pid and stores
  the pid in the first of the slots 0 to 19 of the table that holds 0; when none of
  these twenty slots holds 0 the table is left as it is. Either way the shell goes on,
  and nothing is written to the error stream.
\<close>

theorem executeCommand_registers_background:
  assumes "background c = True" and "0 < childPid" and "length (bgPids sh) = 256"
  shows "\<exists>sh'. executeCommand sys childPid childStatus c sh = Continues sh'
         \<and> stdout sh' = stdout sh @ [''background pid is '' @ sprintf_d childPid @ ''\<newline>'']
         \<and> stderr sh' = stderr sh
         \<and> ((\<exists>k<20. bgPids sh ! k = 0 \<and> (\<forall>j<k. bgPids sh ! j \<noteq> 0)
                    \<and> bgPids sh' = (bgPids sh)[k := childPid])
            \<or> ((\<forall>j<20. bgPids sh ! j \<noteq> 0) \<and> bgPids sh' = bgPids sh))"
proof -
  obtain ret st k where w:
    "waitpid_nohang childPid (children sh @ [(childPid, childStatus)]) = (ret, st, k)"
    by (cases "waitpid_nohang childPid (children sh @ [(childPid, childStatus)])") auto
  let ?sh' = "sh\<lparr>stdout := stdout sh @ [''background pid is '' @ sprintf_d childPid @ ''\<newline>''],
                 bgPids := add_pid childPid 0 (bgPids sh), children := k\<rparr>"
  have run: "executeCommand sys childPid childStatus c sh = Continues ?sh'"
    using assms(1,2) w by (simp add: executeCommand_def)
  have out: "stdout ?sh' = stdout sh @ [''background pid is '' @ sprintf_d childPid @ ''\<newline>'']"
    and err: "stderr ?sh' = stderr sh"
    and tab: "bgPids ?sh' = add_pid childPid 0 (bgPids sh)"
    by simp_all
  have slot: "(\<exists>k<20. bgPids sh ! k = 0 \<and> (\<forall>j<k. bgPids sh ! j \<noteq> 0)
                    \<and> bgPids ?sh' = (bgPids sh)[k := childPid])
            \<or> ((\<forall>j<20. bgPids sh ! j \<noteq> 0) \<and> bgPids ?sh' = bgPids sh)"
    using first_empty_slot_upto [of 20 "bgPids sh"]
  proof
    assume "\<exists>k<20. bgPids sh ! k = 0 \<and> (\<forall>j<k. bgPids sh ! j \<noteq> 0)"
    then obtain k where k: "k < 20" "bgPids sh ! k = 0" "\<forall>j<k. bgPids sh ! j \<noteq> 0" by blast
    then have "add_pid childPid 0 (bgPids sh) = (bgPids sh)[k := childPid]"
      by (intro add_pid_first) simp_all
    with tab have "bgPids ?sh' = (bgPids sh)[k := childPid]" by (rule trans)
    with k show ?thesis by blast
  next
    assume full: "\<forall>j<20. bgPids sh ! j \<noteq> 0"
    then have "add_pid childPid 0 (bgPids sh) = bgPids sh"
      by (intro add_pid_full) simp
    with tab have "bgPids ?sh' = bgPids sh" by (rule trans)
    with full show ?thesis by blast
  qed
  from run out err slot show ?thesis by blast
qed

theorem executeCommand_registers_background_witness:
  "background \<lparr>command = ''sleep'', args = [''sleep'', ''5''], iRedirect = None,
      oRedirect = None, background = True\<rparr> = True
   \<and> (0::int) < 100
   \<and> length (bgPids (initial\<lparr>bgPids := [7, 0, 9] @ replicate 253 0\<rparr>)) = 256
   \<and> executeCommand
       \<lparr>open_rd = (\<lambda>p. 3), open_wr = (\<lambda>p. 4), dup2_fails = (\<lambda>a b. False),
        execvp_fails = (\<lambda>c a. False)\<rparr>
       100 None
       \<lparr>command = ''sleep'', args = [''sleep'', ''5''], iRedirect = None,
        oRedirect = None, background = True\<rparr>
       (initial\<lparr>bgPids := [7, 0, 9] @ replicate 253 0\<rparr>) =
     Continues (initial\<lparr>bgPids := [7, 100, 9] @ replicate 253 0,
                  stdout := [''$ smallsh\<newline>'', ''background pid is 100\<newline>''],
                  children := [(100, None)]\<rparr>)
   \<and> (\<exists>sh'. executeCommand
       \<lparr>open_rd = (\<lambda>p. 3), open_wr = (\<lambda>p. 4), dup2_fails = (\<lambda>a b. False),
        execvp_fails = (\<lambda>c a. False)\<rparr>
       100 None
       \<lparr>command = ''sleep'', args = [''sleep'', ''5''], iRedirect = None,
        oRedirect = None, background = True\<rparr>
       (initial\<lparr>bgPids := [7, 0, 9] @ replicate 253 0\<rparr>) = Continues sh'
       \<and> stderr sh' = [])"
proof -
  let ?c = "\<lparr>command = ''sleep'', args = [''sleep'', ''5''], iRedirect = None,
        oRedirect = None, background = True\<rparr>"
  let ?sys = "\<lparr>open_rd = (\<lambda>p. 3), open_wr = (\<lambda>p. 4), dup2_fails = (\<lambda>a b. False),
        execvp_fails = (\<lambda>c a. False)\<rparr>"
  let ?sh = "initial\<lparr>bgPids := [7, 0, 9] @ replicate 253 0\<rparr>"
  have h1: "background ?c = True" by simp
  have h2: "(0::int) < 100" by simp
  have h3: "length (bgPids ?sh) = 256" by simp
  have e: "executeCommand ?sys 100 None ?c ?sh =
     Continues (initial\<lparr>bgPids := [7, 100, 9] @ replicate 253 0,
                  stdout := [''$ smallsh\<newline>'', ''background pid is 100\<newline>''],
                  children := [(100, None)]\<rparr>)"
    by code_simp
  from executeCommand_registers_background [OF h1 h2 h3, of ?sys None]
  have "\<exists>sh'. executeCommand ?sys 100 None ?c ?sh = Continues sh' \<and> stderr sh' = []"
    by (auto simp: initial_def)
  with h1 h2 h3 e show ?thesis by blast
qed

section \<open>Leaving the shell\<close>

text \<open>
  What \<open>exitShell\<close> does for every table: it sends signal 9 to the pids in the slots
  before the first slot that holds no positive number, and to no other, and ends the
  shell with code 0.
\<close>

lemma kill_loop_kills:
  "kill_loop i sh = Inr sh' \<Longrightarrow>
     kills sh' = kills sh @ map (\<lambda>p. (p, 9)) (takeWhile (\<lambda>p. 0 < p) (drop i (bgPids sh)))
     \<and> bgPids sh' = bgPids sh"
proof (induction "length (bgPids sh) - i" arbitrary: i sh rule: less_induct)
  case less
  let ?b = "bgPids sh"
  show ?case
  proof (cases "length ?b \<le> i")
    case True
    with less.prems show ?thesis by (subst (asm) kill_loop.simps) simp
  next
    case False
    then have d: "drop i ?b = ?b ! i # drop (Suc i) ?b"
      by (simp add: Cons_nth_drop_Suc)
    show ?thesis
    proof (cases "0 < ?b ! i")
      case True
      let ?sh2 = "sh\<lparr>kills := kills sh @ [(?b ! i, 9)],
                      children := snd (snd (waitpid_nohang (?b ! i) (children sh)))\<rparr>"
      from less.prems False True have run: "kill_loop (i + 1) ?sh2 = Inr sh'"
        by (subst (asm) kill_loop.simps) simp
      have "length (bgPids ?sh2) - (i + 1) < length ?b - i" using False by simp
      from less.hyps [OF this run] show ?thesis
        using True by (simp add: d)
    next
      case pos: False
      with less.prems False have "sh' = sh"
        by (subst (asm) kill_loop.simps) simp
      with pos show ?thesis by (simp add: d)
    qed
  qed
qed

lemma exitShell_kills:
  assumes "exitShell sh = Terminates code sh'"
  shows "code = 0 \<and>
         kills sh' = kills sh @ map (\<lambda>p. (p, 9)) (takeWhile (\<lambda>p. 0 < p) (bgPids sh))"
proof (cases "kill_loop 0 sh")
  case (Inl f)
  with assms show ?thesis by (simp add: exitShell_def)
next
  case (Inr s)
  with assms have "code = 0" "s = sh'" by (simp_all add: exitShell_def)
  with kill_loop_kills [OF Inr] show ?thesis by simp
qed

text \<open>
  C3 asks that \<open>exit\<close> kills every child in the table. The loop of \<open>exitShell\<close>
  stops at the first slot that holds 0, and \<open>checkBackground\<close> leaves such a slot
  behind when it removes a child. Two background children 4241 and 4242 are started
  from the initial state; 4241 terminates and one pass of \<open>checkBackground\<close> reports
  it and clears slot 0; then \<open>exitShell\<close> ends the shell with code 0 and has sent no
  signal, although 4242 is in slot 1 and still running.
\<close>

theorem exitShell_first_empty_slot:
  "executeCommand
      \<lparr>open_rd = (\<lambda>p. 3), open_wr = (\<lambda>p. 4), dup2_fails = (\<lambda>a b. False),
       execvp_fails = (\<lambda>c a. False)\<rparr>
      4241 None
      \<lparr>command = ''sleep'', args = [''sleep'', ''1''], iRedirect = None, oRedirect = None,
       background = True\<rparr> initial =
     Continues (initial\<lparr>bgPids := [4241] @ replicate 255 0,
                  stdout := [''$ smallsh\<newline>'', ''background pid is 4241\<newline>''],
                  children := [(4241, None)]\<rparr>)
   \<and> executeCommand
      \<lparr>open_rd = (\<lambda>p. 3), open_wr = (\<lambda>p. 4), dup2_fails = (\<lambda>a b. False),
       execvp_fails = (\<lambda>c a. False)\<rparr>
      4242 None
      \<lparr>command = ''sleep'', args = [''sleep'', ''100''], iRedirect = None, oRedirect = None,
       background = True\<rparr>
      (initial\<lparr>bgPids := [4241] @ replicate 255 0,
                  stdout := [''$ smallsh\<newline>'', ''background pid is 4241\<newline>''],
                  children := [(4241, None)]\<rparr>) =
     Continues (initial\<lparr>bgPids := [4241, 4242] @ replicate 254 0,
                  stdout := [''$ smallsh\<newline>'', ''background pid is 4241\<newline>'',
                             ''background pid is 4242\<newline>''],
                  children := [(4241, None), (4242, None)]\<rparr>)
   \<and> checkBackground
      (initial\<lparr>bgPids := [4241, 4242] @ replicate 254 0,
                  stdout := [''$ smallsh\<newline>'', ''background pid is 4241\<newline>'',
                             ''background pid is 4242\<newline>''],
                  children := child_terminates 4241 (Exited 0)
                                [(4241, None), (4242, None)]\<rparr>) =
     initial\<lparr>bgPids := [0, 4242] @ replicate 254 0,
                  stdout := [''$ smallsh\<newline>'', ''background pid is 4241\<newline>'',
                             ''background pid is 4242\<newline>'',
                             ''background pid 4241 is done: exit value 0\<newline>''],
                  children := [(4242, None)]\<rparr>
   \<and> exitShell
      (initial\<lparr>bgPids := [0, 4242] @ replicate 254 0,
                  stdout := [''$ smallsh\<newline>'', ''background pid is 4241\<newline>'',
                             ''background pid is 4242\<newline>'',
                             ''background pid 4241 is done: exit value 0\<newline>''],
                  children := [(4242, None)]\<rparr>) =
     Terminates 0
      (initial\<lparr>bgPids := [0, 4242] @ replicate 254 0,
                  stdout := [''$ smallsh\<newline>'', ''background pid is 4241\<newline>'',
                             ''background pid is 4242\<newline>'',
                             ''background pid 4241 is done: exit value 0\<newline>''],
                  children := [(4242, None)]\<rparr>)
   \<and> kills initial = []"
proof (intro conjI)
  show "executeCommand
      \<lparr>open_rd = (\<lambda>p. 3), open_wr = (\<lambda>p. 4), dup2_fails = (\<lambda>a b. False),
       execvp_fails = (\<lambda>c a. False)\<rparr>
      4241 None
      \<lparr>command = ''sleep'', args = [''sleep'', ''1''], iRedirect = None, oRedirect = None,
       background = True\<rparr> initial =
     Continues (initial\<lparr>bgPids := [4241] @ replicate 255 0,
                  stdout := [''$ smallsh\<newline>'', ''background pid is 4241\<newline>''],
                  children := [(4241, None)]\<rparr>)"
    by code_simp
  show "executeCommand
      \<lparr>open_rd = (\<lambda>p. 3), open_wr = (\<lambda>p. 4), dup2_fails = (\<lambda>a b. False),
       execvp_fails = (\<lambda>c a. False)\<rparr>
      4242 None
      \<lparr>command = ''sleep'', args = [''sleep'', ''100''], iRedirect = None, oRedirect = None,
       background = True\<rparr>
      (initial\<lparr>bgPids := [4241] @ replicate 255 0,
                  stdout := [''$ smallsh\<newline>'', ''background pid is 4241\<newline>''],
                  children := [(4241, None)]\<rparr>) =
     Continues (initial\<lparr>bgPids := [4241, 4242] @ replicate 254 0,
                  stdout := [''$ smallsh\<newline>'', ''background pid is 4241\<newline>'',
                             ''background pid is 4242\<newline>''],
                  children := [(4241, None), (4242, None)]\<rparr>)"
    by code_simp
  have w: "waitpid_any_nohang (child_terminates 4241 (Exited 0) [(4241, None), (4242, None)])
             = (4241, Some (Exited 0), [(4242, None)])"
    by code_simp
  have r: "remove_pid 4241 0 ([4241, 4242] @ replicate 254 0) = [0, 4242] @ replicate 254 0"
    by code_simp
  have s: "sprintf_d 4241 = ''4241''" "sprintf_d 0 = ''0''"
    by code_simp+
  show "checkBackground
      (initial\<lparr>bgPids := [4241, 4242] @ replicate 254 0,
                  stdout := [''$ smallsh\<newline>'', ''background pid is 4241\<newline>'',
                             ''background pid is 4242\<newline>''],
                  children := child_terminates 4241 (Exited 0)
                                [(4241, None), (4242, None)]\<rparr>) =
     initial\<lparr>bgPids := [0, 4242] @ replicate 254 0,
                  stdout := [''$ smallsh\<newline>'', ''background pid is 4241\<newline>'',
                             ''background pid is 4242\<newline>'',
                             ''background pid 4241 is done: exit value 0\<newline>''],
                  children := [(4242, None)]\<rparr>"
    unfolding checkBackground_def
    by (simp add: w r s Let_def initial_def del: replicate.simps append.simps)
  show "exitShell
      (initial\<lparr>bgPids := [0, 4242] @ replicate 254 0,
                  stdout := [''$ smallsh\<newline>'', ''background pid is 4241\<newline>'',
                             ''background pid is 4242\<newline>'',
                             ''background pid 4241 is done: exit value 0\<newline>''],
                  children := [(4242, None)]\<rparr>) =
     Terminates 0
      (initial\<lparr>bgPids := [0, 4242] @ replicate 254 0,
                  stdout := [''$ smallsh\<newline>'', ''background pid is 4241\<newline>'',
                             ''background pid is 4242\<newline>'',
                             ''background pid 4241 is done: exit value 0\<newline>''],
                  children := [(4242, None)]\<rparr>)"
    by code_simp
  show "kills initial = []"
    by (simp add: initial_def)
qed

section \<open>Reaping background children\<close>

text \<open>
  One pass of \<open>checkBackground\<close>. When \<open>waitpid\<close> returns a terminated child, the
  pass writes one line with its pid and outcome and puts 0 into each of the slots 0 to
  19 that hold the pid; a pid that is in none of them leaves the table as it is. When
  no child has terminated the pass changes nothing. The kernel forgets the child that
  \<open>waitpid\<close> returned, so a later pass cannot return it again.
\<close>

lemma remove_pid_absent:
  "\<forall>j. i \<le> j \<and> j < 20 \<longrightarrow> t ! j \<noteq> p \<Longrightarrow> remove_pid p i t = t"
proof (induction p i t rule: remove_pid.induct)
  case (1 p i t)
  show ?case
  proof (cases "i < 20")
    case True
    with 1(2) have ne: "t ! i \<noteq> p" by simp
    from 1(2) have "\<forall>j. i + 1 \<le> j \<and> j < 20 \<longrightarrow> t ! j \<noteq> p" by simp
    with 1(1) True ne have "remove_pid p (i + 1) t = t" by simp
    with True ne show ?thesis by (subst remove_pid.simps) simp
  next
    case False
    then show ?thesis by (subst remove_pid.simps) simp
  qed
qed

lemma remove_pid_length: "length (remove_pid p i t) = length t"
proof (induction p i t rule: remove_pid.induct)
  case (1 p i t)
  show ?case
  proof (cases "i < 20")
    case True
    let ?t = "if t ! i = p then t[i := 0] else t"
    from 1 True have "length (remove_pid p (i + 1) ?t) = length ?t" by blast
    with True show ?thesis by (subst remove_pid.simps) simp
  next
    case False
    then show ?thesis by (subst remove_pid.simps) simp
  qed
qed

lemma remove_pid_nth:
  "j < length t \<Longrightarrow>
     remove_pid p i t ! j = (if i \<le> j \<and> j < 20 \<and> t ! j = p then 0 else t ! j)"
proof (induction p i t rule: remove_pid.induct)
  case (1 p i t)
  show ?case
  proof (cases "i < 20")
    case True
    let ?t = "if t ! i = p then t[i := 0] else t"
    have len: "j < length ?t" using 1(2) by simp
    from 1(1) [OF True len]
    have IH: "remove_pid p (i + 1) ?t ! j =
                (if i + 1 \<le> j \<and> j < 20 \<and> ?t ! j = p then 0 else ?t ! j)" .
    have step: "remove_pid p i t = remove_pid p (i + 1) ?t"
      using True by (subst remove_pid.simps) simp
    have "remove_pid p i t ! j =
            (if i + 1 \<le> j \<and> j < 20 \<and> ?t ! j = p then 0 else ?t ! j)"
      by (simp only: step IH)
    also have "\<dots> = (if i \<le> j \<and> j < 20 \<and> t ! j = p then 0 else t ! j)"
      using 1(2) True by (cases "i = j") (auto simp: nth_list_update)
    finally show ?thesis .
  next
    case False
    then show ?thesis by (subst remove_pid.simps) simp
  qed
qed

lemma checkBackground_exited:
  assumes "waitpid_any_nohang (children sh) = (p, Some (Exited code), k)" and "0 < p"
  shows "checkBackground sh =
           sh\<lparr>children := k,
              stdout := stdout sh @
                [''background pid '' @ sprintf_d p @ '' is done: exit value '' @
                 sprintf_d code @ ''\<newline>''],
              bgPids := remove_pid p 0 (bgPids sh)\<rparr>"
  using assms by (simp add: checkBackground_def Let_def)

lemma checkBackground_signaled:
  assumes "waitpid_any_nohang (children sh) = (p, Some (Signaled sig), k)" and "0 < p"
  shows "checkBackground sh =
           sh\<lparr>children := k,
              stdout := stdout sh @
                [''background pid '' @ sprintf_d p @ '' is done: terminated by signal '' @
                 sprintf_d sig @ ''\<newline>''],
              bgPids := remove_pid p 0 (bgPids sh)\<rparr>"
  using assms by (simp add: checkBackground_def Let_def)

lemma checkBackground_idle:
  "find (\<lambda>e. snd e \<noteq> None) (children sh) = None \<Longrightarrow> checkBackground sh = sh"
  by (simp add: checkBackground_def waitpid_any_nohang_def)

lemma waitpid_any_nohang_forgets:
  assumes "distinct (map fst k)" and "waitpid_any_nohang k = (p, Some st, k')"
  shows "(p, Some st) \<in> set k \<and> p \<notin> fst ` set k'"
proof -
  from assms(2) have f: "find (\<lambda>e. snd e \<noteq> None) k = Some (p, Some st)"
    and k': "k' = remove1 (p, Some st) k"
    by (auto simp: waitpid_any_nohang_def split: option.splits if_splits)
  from f have mem: "(p, Some st) \<in> set k"
    by (auto simp: find_Some_iff)
  from assms(1) have dk: "distinct k" by (rule distinct_map [THEN iffD1, THEN conjunct1])
  have "p \<notin> fst ` set k'"
  proof
    assume "p \<in> fst ` set k'"
    then obtain s where s: "(p, s) \<in> set k'" by auto
    with k' dk have "(p, s) \<in> set k" and ne: "(p, s) \<noteq> (p, Some st)" by auto
    with mem assms(1) have "s = Some st"
      by (meson eq_key_imp_eq_value)
    with ne show False by simp
  qed
  with mem show ?thesis by simp
qed

text \<open>
  C2 asks that every background child that terminates is reported by one pass of
  \<open>checkBackground\<close>, which also clears its slot. The parent's own
  \<open>waitpid(childPid, &childStatus, WNOHANG)\<close> of line 267 comes first: when the child
  has terminated by then (here child 100, whose \<open>execvp\<close> failed), that call collects
  it and drops its status. The table keeps 100 in slot 0, the kernel has no child
  left, and a pass of \<open>checkBackground\<close> changes nothing, so no pass, however many
  follow, reports the child or clears the slot.
\<close>

theorem background_child_reaped_by_launcher:
  "executeCommand
      \<lparr>open_rd = (\<lambda>p. 3), open_wr = (\<lambda>p. 4), dup2_fails = (\<lambda>a b. False),
       execvp_fails = (\<lambda>c a. True)\<rparr>
      100 (Some (Exited 1))
      \<lparr>command = ''nosuchcmd'', args = [''nosuchcmd''], iRedirect = None, oRedirect = None,
       background = True\<rparr> initial =
     Continues (initial\<lparr>bgPids := [100] @ replicate 255 0,
                  stdout := [''$ smallsh\<newline>'', ''background pid is 100\<newline>''],
                  children := []\<rparr>)
   \<and> checkBackground
       (initial\<lparr>bgPids := [100] @ replicate 255 0,
                  stdout := [''$ smallsh\<newline>'', ''background pid is 100\<newline>''],
                  children := []\<rparr>) =
     initial\<lparr>bgPids := [100] @ replicate 255 0,
                  stdout := [''$ smallsh\<newline>'', ''background pid is 100\<newline>''],
                  children := []\<rparr>"
proof (intro conjI)
  show "executeCommand
      \<lparr>open_rd = (\<lambda>p. 3), open_wr = (\<lambda>p. 4), dup2_fails = (\<lambda>a b. False),
       execvp_fails = (\<lambda>c a. True)\<rparr>
      100 (Some (Exited 1))
      \<lparr>command = ''nosuchcmd'', args = [''nosuchcmd''], iRedirect = None, oRedirect = None,
       background = True\<rparr> initial =
     Continues (initial\<lparr>bgPids := [100] @ replicate 255 0,
                  stdout := [''$ smallsh\<newline>'', ''background pid is 100\<newline>''],
                  children := []\<rparr>)"
    by code_simp
  show "checkBackground
       (initial\<lparr>bgPids := [100] @ replicate 255 0,
                  stdout := [''$ smallsh\<newline>'', ''background pid is 100\<newline>''],
                  children := []\<rparr>) =
     initial\<lparr>bgPids := [100] @ replicate 255 0,
                  stdout := [''$ smallsh\<newline>'', ''background pid is 100\<newline>''],
                  children := []\<rparr>"
    by code_simp
qed

section \<open>The variable expander\<close>

lemma at_var_Cons2 [simp]: "at_var (c # d # cs) = (c = CHR ''$'' \<and> d = CHR ''$'')"
  by (simp add: at_var_def)

lemma at_var_short [simp]: "at_var [] = False" "at_var [c] = False"
  by (simp_all add: at_var_def)

lemma copy_loop_replace: "copy_loop p s res = res @ replace_markers p s"
proof (induction s arbitrary: res rule: length_induct)
  case (1 s)
  have IH: "copy_loop p ys r = r @ replace_markers p ys" if "length ys < length s" for ys r
    using 1 that by blast
  show ?case
  proof (cases s)
    case Nil
    then show ?thesis by simp
  next
    case (Cons c s1)
    note s = Cons
    show ?thesis
    proof (cases s1)
      case Nil
      with s show ?thesis by simp
    next
      case (Cons d cs)
      have a: "copy_loop p cs r = r @ replace_markers p cs" for r
        by (rule IH) (simp add: s Cons)
      have b: "copy_loop p (d # cs) r = r @ replace_markers p (d # cs)" for r
        by (rule IH) (simp add: s Cons)
      have step: "copy_loop p (c # d # cs) res =
          (if c = CHR ''$'' \<and> d = CHR ''$'' then copy_loop p cs (res @ p)
           else copy_loop p (d # cs) (res @ [c]))"
        by (subst copy_loop.simps(2)) (simp del: copy_loop.simps)
      show ?thesis
        unfolding s Cons step by (simp add: a b del: copy_loop.simps)
    qed
  qed
qed

lemma replace_markers_step:
  "at_var s \<Longrightarrow> replace_markers p s = p @ replace_markers p (drop 2 s)"
  "\<not> at_var (c # cs) \<Longrightarrow> replace_markers p (c # cs) = c # replace_markers p cs"
proof -
  show "replace_markers p s = p @ replace_markers p (drop 2 s)" if "at_var s"
  proof (cases s)
    case Nil
    with that show ?thesis by simp
  next
    case (Cons a s1)
    with that show ?thesis by (cases s1) simp_all
  qed
  show "replace_markers p (c # cs) = c # replace_markers p cs" if "\<not> at_var (c # cs)"
    using that by (cases cs) auto
qed

lemma occurrences_step:
  "at_var s \<Longrightarrow> occurrences s = Suc (occurrences (drop 2 s))"
  "\<not> at_var (c # cs) \<Longrightarrow> occurrences (c # cs) = occurrences cs"
proof -
  show "occurrences s = Suc (occurrences (drop 2 s))" if "at_var s"
  proof (cases s)
    case Nil
    with that show ?thesis by simp
  next
    case (Cons a s1)
    with that show ?thesis by (cases s1) simp_all
  qed
  show "occurrences (c # cs) = occurrences cs" if "\<not> at_var (c # cs)"
    using that by (cases cs) auto
qed

lemma at_var_length: "at_var s \<Longrightarrow> 2 \<le> length s"
  by (cases s; cases "tl s") (simp_all add: at_var_def)

lemma count_loop_occurrences:
  "i \<le> length s \<Longrightarrow> count_loop s i n = (length s, n + occurrences (drop i s))"
proof (induction "length s - i" arbitrary: i n rule: less_induct)
  case less
  show ?case
  proof (cases "i < length s")
    case False
    with less.prems have "i = length s" by simp
    then show ?thesis by (subst count_loop.simps) simp
  next
    case True
    then have d: "drop i s = s ! i # drop (Suc i) s"
      by (simp add: Cons_nth_drop_Suc)
    show ?thesis
    proof (cases "at_var (drop i s)")
      case True
      from at_var_length [OF True] have le: "i + 2 \<le> length s" by simp
      with less.hyps [of "i + 2" "n + 1"] \<open>i < length s\<close>
      have "count_loop s (i + 2) (n + 1) = (length s, n + 1 + occurrences (drop (i + 2) s))"
        by simp
      moreover have "occurrences (drop i s) = Suc (occurrences (drop (i + 2) s))"
        using occurrences_step(1) [OF True] by (simp add: add.commute)
      ultimately show ?thesis
        using True \<open>i < length s\<close> by (subst count_loop.simps) simp
    next
      case False
      from \<open>i < length s\<close> less.hyps [of "i + 1" n]
      have "count_loop s (i + 1) n = (length s, n + occurrences (drop (i + 1) s))"
        by simp
      moreover have "occurrences (drop i s) = occurrences (drop (i + 1) s)"
        using False occurrences_step(2) [of "s ! i" "drop (Suc i) s"] unfolding d by simp
      ultimately show ?thesis
        using False \<open>i < length s\<close> by (subst count_loop.simps) simp
    qed
  qed
qed

lemma length_replace_markers:
  "int (length (replace_markers p s)) =
     int (length s) + int (occurrences s) * (int (length p) - 2)"
proof (induction s rule: length_induct)
  case (1 s)
  have IH: "int (length (replace_markers p ys)) =
     int (length ys) + int (occurrences ys) * (int (length p) - 2)"
    if "length ys < length s" for ys
    using 1 that by blast
  show ?case
  proof (cases s)
    case Nil
    then show ?thesis by simp
  next
    case (Cons c cs)
    show ?thesis
    proof (cases "at_var s")
      case True
      from at_var_length [OF True] have "length (drop 2 s) < length s" by simp
      from IH [OF this] at_var_length [OF True] show ?thesis
        unfolding replace_markers_step(1) [OF True] occurrences_step(1) [OF True]
        by (simp add: algebra_simps)
    next
      case False
      have "length cs < length s" using Cons by simp
      from IH [OF this] show ?thesis
        using False unfolding Cons
        by (simp add: replace_markers_step(2) occurrences_step(2))
    qed
  qed
qed

lemma expandVariable_fits:
  assumes "length (sprintf_d pid) \<le> 4"
  shows "expandVariable pid input = Inr (replace_markers (sprintf_d pid) input)"
proof -
  have c: "count_loop input 0 0 = (length input, occurrences input)"
    using count_loop_occurrences [of 0 input 0] by simp
  show ?thesis
    using assms
    by (simp add: expandVariable_def pidString_size_def c copy_loop_replace
          length_replace_markers Let_def)
qed

lemma replace_markers_no_marker:
  "\<forall>ps ss. s \<noteq> ps @ ''$$'' @ ss \<Longrightarrow> replace_markers p s = s"
proof (induction s)
  case Nil
  then show ?case by simp
next
  case (Cons c cs)
  have "\<not> at_var (c # cs)"
  proof
    assume "at_var (c # cs)"
    then have "c # cs = [] @ ''$$'' @ drop 2 (c # cs)"
      by (cases cs) (simp_all add: at_var_def)
    with Cons.prems show False by blast
  qed
  moreover have "\<forall>ps ss. cs \<noteq> ps @ ''$$'' @ ss"
  proof (intro allI notI)
    fix ps ss
    assume "cs = ps @ ''$$'' @ ss"
    then have "c # cs = (c # ps) @ ''$$'' @ ss" by simp
    with Cons.prems show False by blast
  qed
  ultimately show ?case
    using Cons.IH by (simp add: replace_markers_step(2))
qed

lemma digits10_length:
  "0 \<le> n \<Longrightarrow> n < 10 \<Longrightarrow> length (digits10 n) = 1"
  "10 \<le> n \<Longrightarrow> n < 100 \<Longrightarrow> length (digits10 n) = 2"
  "100 \<le> n \<Longrightarrow> n < 1000 \<Longrightarrow> length (digits10 n) = 3"
  "1000 \<le> n \<Longrightarrow> n < 10000 \<Longrightarrow> length (digits10 n) = 4"
proof -
  show d1: "length (digits10 n) = 1" if "0 \<le> n" "n < 10" for n
    using that by (subst digits10.simps) simp
  show d2: "length (digits10 n) = 2" if "10 \<le> n" "n < 100" for n
  proof -
    from that have "0 \<le> n div 10" "n div 10 < 10" by simp_all
    from d1 [OF this] that show ?thesis by (subst digits10.simps) simp
  qed
  show d3: "length (digits10 n) = 3" if "100 \<le> n" "n < 1000" for n
  proof -
    from that have "10 \<le> n div 10" "n div 10 < 100" by simp_all
    from d2 [OF this] that show ?thesis by (subst digits10.simps) simp
  qed
  show "length (digits10 n) = 4" if "1000 \<le> n" "n < 10000" for n
  proof -
    from that have "100 \<le> n div 10" "n div 10 < 1000" by simp_all
    from d3 [OF this] that show ?thesis by (subst digits10.simps) simp
  qed
qed

lemma sprintf_d_fits: "0 \<le> pid \<Longrightarrow> pid < 10000 \<Longrightarrow> length (sprintf_d pid) \<le> 4"
proof -
  assume a: "0 \<le> pid" "pid < 10000"
  consider "pid < 10" | "10 \<le> pid" "pid < 100" | "100 \<le> pid" "pid < 1000" | "1000 \<le> pid"
    by linarith
  then show ?thesis
    using a by cases (simp_all add: sprintf_d_def digits10_length)
qed

lemma digits10_long: "10000 \<le> n \<Longrightarrow> 5 \<le> length (digits10 n)"
proof (induction n rule: digits10.induct)
  case (1 n)
  show ?case
  proof (cases "n < 100000")
    case True
    with 1 have "1000 \<le> n div 10" "n div 10 < 10000" by simp_all
    from digits10_length(4) [OF this] 1(2) show ?thesis
      by (subst digits10.simps) simp
  next
    case False
    then have "10000 \<le> n div 10" by simp
    moreover have "\<not> n < 10" using False by simp
    ultimately have "5 \<le> length (digits10 (n div 10))" by (rule 1(1)[rotated])
    then show ?thesis using False by (subst digits10.simps) simp
  qed
qed

lemma expandVariable_overflows:
  "10000 \<le> pid \<Longrightarrow> expandVariable pid input = Inl PidStringOverflow"
  using digits10_long [of pid]
  by (simp add: expandVariable_def pidString_size_def sprintf_d_def Let_def)

text \<open>
  For a pid of at most four digits the expander does what the specification says: the
  result is the input with every marker replaced, its length is the length of the input
  plus the number of markers times the number of digits less 2, and an input without
  a marker is returned as it is.
\<close>

lemma expandVariable_small_pid:
  assumes "0 \<le> pid" and "pid < 10000"
  shows "expandVariable pid input = Inr (replace_markers (sprintf_d pid) input)
       \<and> int (length (replace_markers (sprintf_d pid) input)) =
           int (length input) + int (occurrences input) * (int (length (sprintf_d pid)) - 2)"
  using expandVariable_fits [OF sprintf_d_fits [OF assms]] length_replace_markers
  by simp

lemma expandVariable_identity_small_pid:
  assumes "0 \<le> pid" and "pid < 10000" and "\<forall>ps ss. input \<noteq> ps @ ''$$'' @ ss"
  shows "expandVariable pid input = Inr input"
  using expandVariable_fits [OF sprintf_d_fits [OF assms(1,2)]]
    replace_markers_no_marker [OF assms(3)]
  by simp

text \<open>
  C7 asks, for every input, for the input with each marker replaced by the decimal
  text of the shell's pid. \<open>expandVariable\<close> first prints the pid into \<open>pidString\<close>,
  which has 5 bytes: with pid 12345 \<open>sprintf\<close> writes the five digits and the NUL, 6
  bytes, past the end of the array, before any character of the input is looked at.
\<close>

theorem expandVariable_pidString_overflow:
  "expandVariable 12345 ''echo hi$$\<newline>'' = Inl PidStringOverflow
   \<and> sprintf_d 12345 = ''12345'' \<and> pidString_size = 5"
  by code_simp

text \<open>
  C8 asks that an input without a marker is returned as it is. The overflow of
  \<open>pidString\<close> does not depend on the input: with pid 12345 it happens for the line
  \<open>ls\<close> as well.
\<close>

theorem expandVariable_no_marker_overflow:
  "expandVariable 12345 ''ls\<newline>'' = Inl PidStringOverflow"
  by code_simp

end
